theory Spec2Isabelle
  imports Main
begin

section \<open>The ring buffer of Classical_producer_consumer.cpp\<close>

text \<open>
  The class \<open>utils::RingBuffer<T, Blocks, BlockSize>\<close> keeps \<open>Blocks\<close> slots of
  \<open>BlockSize\<close> elements each, two counting semaphores and two cursors. The
  template parameters \<open>Blocks\<close> and \<open>BlockSize\<close> are arguments of the functions
  that use them. The member names of the source end in an underscore, which is
  not a legal name here: they are written without it, and \<open>size_\<close> is \<open>size'\<close>.

  Every member function takes the mutex for its critical section and waits on a
  semaphore outside of it, so a call is one atomic step of the state below; the
  mutex itself carries no data and is left out. A call that waits on a
  semaphore whose counter is zero does not return as long as no other call
  runs: its value is \<open>None\<close>.
\<close>

subsection \<open>Slots\<close>

text \<open>
  \<open>struct block { std::size_t size_; std::array<T, BlockSize> data_; }\<close>: the
  array is a list, of length \<open>BlockSize\<close> in every well-formed slot.
\<close>

record 'a block =
  size' :: nat
  data :: "'a list"

subsection \<open>std::counting_semaphore\<close>

text \<open>
  The counter of a semaphore is a natural number. \<open>acquire\<close> decrements it and
  waits while it is zero; \<open>try_acquire_for\<close> gives up after the timeout, which
  on a zero counter with no other call running always expires, and reports
  whether it decremented; \<open>release\<close> increments.
\<close>

definition acquire :: "nat \<Rightarrow> nat option" where
  "acquire c = (if c = 0 then None else Some (c - 1))"

definition try_acquire_for :: "nat \<Rightarrow> nat \<Rightarrow> bool \<times> nat" where
  "try_acquire_for c timeout = (if c = 0 then (False, c) else (True, c - 1))"

definition release :: "nat \<Rightarrow> nat" where
  "release c = c + 1"

subsection \<open>The buffer\<close>

record 'a RingBuffer =
  writeSemaphore :: nat
  readSemaphore :: nat
  writeIndex :: nat
  readIndex :: nat
  blocks :: "'a block list"

text \<open>
  A newly constructed buffer: \<open>writeSemaphore_ {Blocks}\<close>, \<open>readSemaphore_ {0}\<close>,
  both cursors \<open>0\<close>. The slots have no initialiser in the class, so their first
  contents \<open>bs\<close> are whatever the construction leaves there.
\<close>

definition RingBuffer_init :: "nat \<Rightarrow> 'a block list \<Rightarrow> 'a RingBuffer" where
  "RingBuffer_init Blocks bs =
     \<lparr>writeSemaphore = Blocks, readSemaphore = 0, writeIndex = 0, readIndex = 0, blocks = bs\<rparr>"

subsection \<open>Producer operations\<close>

text \<open>\<open>void write(block_type&& data)\<close>\<close>

definition write_block :: "nat \<Rightarrow> 'a block \<Rightarrow> 'a RingBuffer \<Rightarrow> 'a RingBuffer option" where
  "write_block Blocks d s =
     (case acquire (writeSemaphore s) of
        None \<Rightarrow> None
      | Some w \<Rightarrow>
          Some (s\<lparr>writeSemaphore := w,
                  blocks := (blocks s)[writeIndex s := d],
                  writeIndex := (writeIndex s + 1) mod Blocks,
                  readSemaphore := release (readSemaphore s)\<rparr>))"

text \<open>
  \<open>std::size_t write(Collection&& collection)\<close>: \<open>std::copy\<close> overwrites the
  first \<open>written\<close> elements of the slot's array and leaves the others.
\<close>

definition write_collection ::
  "nat \<Rightarrow> nat \<Rightarrow> 'a list \<Rightarrow> 'a RingBuffer \<Rightarrow> (nat \<times> 'a RingBuffer) option" where
  "write_collection Blocks BlockSize collection s =
     (let written = min BlockSize (length collection) in
      case acquire (writeSemaphore s) of
        None \<Rightarrow> None
      | Some w \<Rightarrow>
          let block = blocks s ! writeIndex s;
              block' = block\<lparr>size' := written,
                             data := take written collection @ drop written (data block)\<rparr>
          in Some (written,
                   s\<lparr>writeSemaphore := w,
                     blocks := (blocks s)[writeIndex s := block'],
                     writeIndex := (writeIndex s + 1) mod Blocks,
                     readSemaphore := release (readSemaphore s)\<rparr>))"

subsection \<open>Consumer operations\<close>

text \<open>
  \<open>bool readImpl(Func&& func)\<close>: \<open>func\<close> is a closure over the caller's output;
  here it maps the slot and the caller's output \<open>out\<close> to the new output. The
  read cursor is not assigned in this function.
\<close>

definition readImpl_func ::
  "('a block \<Rightarrow> 'c \<Rightarrow> 'c) \<Rightarrow> 'a RingBuffer \<Rightarrow> 'c \<Rightarrow> bool \<times> 'a RingBuffer \<times> 'c" where
  "readImpl_func func s out =
     (if writeIndex s = readIndex s then (False, s, out)
      else (True,
            s\<lparr>writeSemaphore := release (writeSemaphore s)\<rparr>,
            func (blocks s ! readIndex s) out))"

text \<open>
  \<open>bool readImpl(Func&& func, block_type& block, Args&&... args)\<close>: \<open>func\<close> is
  the semaphore's member function, \<open>acquire\<close> (no result: the call goes on
  when it returns) or \<open>try_acquire_for\<close> (a \<open>bool\<close>: the call returns \<open>false\<close>
  when it is \<open>false\<close>). Here \<open>func\<close> maps the counter to \<open>None\<close> when it
  waits, and otherwise to its result and the new counter.
\<close>

definition readImpl ::
  "nat \<Rightarrow> (nat \<Rightarrow> (bool \<times> nat) option) \<Rightarrow> 'a RingBuffer \<Rightarrow> 'a block
     \<Rightarrow> (bool \<times> 'a RingBuffer \<times> 'a block) option" where
  "readImpl Blocks func s block =
     (case func (readSemaphore s) of
        None \<Rightarrow> None
      | Some (ok, r) \<Rightarrow>
          if \<not> ok then Some (False, s\<lparr>readSemaphore := r\<rparr>, block)
          else
            let s1 = s\<lparr>readSemaphore := r\<rparr> in
            if readIndex s1 = writeIndex s1 then Some (False, s1, block)
            else Some (True,
                       s1\<lparr>readIndex := (readIndex s1 + 1) mod Blocks,
                          writeSemaphore := release (writeSemaphore s1)\<rparr>,
                       blocks s1 ! readIndex s1))"

text \<open>\<open>bool read(block_type& block)\<close>, with \<open>&semaphore_type::acquire\<close>\<close>

definition read ::
  "nat \<Rightarrow> 'a RingBuffer \<Rightarrow> 'a block \<Rightarrow> (bool \<times> 'a RingBuffer \<times> 'a block) option" where
  "read Blocks s block =
     readImpl Blocks (\<lambda>c. map_option (\<lambda>r. (True, r)) (acquire c)) s block"

text \<open>\<open>bool read_for(block_type& block, std::chrono::milliseconds timeout)\<close>\<close>

definition read_for ::
  "nat \<Rightarrow> 'a RingBuffer \<Rightarrow> 'a block \<Rightarrow> nat \<Rightarrow> (bool \<times> 'a RingBuffer \<times> 'a block) option" where
  "read_for Blocks s block timeout =
     readImpl Blocks (\<lambda>c. Some (try_acquire_for c timeout)) s block"

text \<open>
  The closure of the collection reads: \<open>reserve\<close> changes the capacity of the
  caller's sequence and not its elements, and \<open>std::copy\<close> from
  \<open>block.data_.cbegin()\<close> to \<open>block.data_.cend()\<close> appends the whole array.
\<close>

definition reserve :: "'a list \<Rightarrow> nat \<Rightarrow> 'a list" where
  "reserve collection n = collection"

definition append_block :: "'a block \<Rightarrow> 'a list \<Rightarrow> 'a list" where
  "append_block block collection = reserve collection (size' block) @ data block"

text \<open>\<open>auto read(Collection& collection)\<close>\<close>

definition read_collection ::
  "'a RingBuffer \<Rightarrow> 'a list \<Rightarrow> (bool \<times> 'a RingBuffer \<times> 'a list) option" where
  "read_collection s collection =
     (case acquire (readSemaphore s) of
        None \<Rightarrow> None
      | Some r \<Rightarrow> Some (readImpl_func append_block (s\<lparr>readSemaphore := r\<rparr>) collection))"

text \<open>\<open>auto read_for(Collection& collection, std::chrono::milliseconds timeout)\<close>\<close>

definition read_for_collection ::
  "'a RingBuffer \<Rightarrow> 'a list \<Rightarrow> nat \<Rightarrow> bool \<times> 'a RingBuffer \<times> 'a list" where
  "read_for_collection s collection timeout =
     (case try_acquire_for (readSemaphore s) timeout of
        (ok, r) \<Rightarrow>
          if \<not> ok then (False, s\<lparr>readSemaphore := r\<rparr>, collection)
          else readImpl_func append_block (s\<lparr>readSemaphore := r\<rparr>) collection)"

text \<open>
  The closure of the byte reads, on the caller's memory at \<open>ptr\<close> and the
  caller's \<open>size\<close> (here \<open>sz\<close>): \<open>size = std::min(size, block.size_)\<close>, then
  \<open>std::memcpy\<close> of \<open>size\<close> elements over the start of the memory. The source
  has the byte reads for byte-like \<open>T\<close> only; the element type stays open here.
  The caller's memory has to hold \<open>size\<close> elements, and \<open>size_\<close> of the slot
  must not exceed \<open>BlockSize\<close>: \<open>std::memcpy\<close> is undefined otherwise, and the
  lists here are then cut short.
\<close>

definition copy_bytes :: "'a block \<Rightarrow> 'a list \<times> nat \<Rightarrow> 'a list \<times> nat" where
  "copy_bytes block out =
     (case out of (mem, sz) \<Rightarrow>
        let sz' = min sz (size' block)
        in (take sz' (data block) @ drop sz' mem, sz'))"

text \<open>\<open>bool read_bytes(T* ptr, std::size_t& size)\<close>\<close>

definition read_bytes ::
  "'a RingBuffer \<Rightarrow> 'a list \<times> nat \<Rightarrow> (bool \<times> 'a RingBuffer \<times> 'a list \<times> nat) option" where
  "read_bytes s out =
     (case acquire (readSemaphore s) of
        None \<Rightarrow> None
      | Some r \<Rightarrow> Some (readImpl_func copy_bytes (s\<lparr>readSemaphore := r\<rparr>) out))"

text \<open>\<open>bool read_bytes_for(T* ptr, std::size_t& size, std::chrono::milliseconds timeout)\<close>\<close>

definition read_bytes_for ::
  "'a RingBuffer \<Rightarrow> 'a list \<times> nat \<Rightarrow> nat \<Rightarrow> bool \<times> 'a RingBuffer \<times> 'a list \<times> nat" where
  "read_bytes_for s out timeout =
     (case try_acquire_for (readSemaphore s) timeout of
        (ok, r) \<Rightarrow>
          if \<not> ok then (False, s\<lparr>readSemaphore := r\<rparr>, out)
          else readImpl_func copy_bytes (s\<lparr>readSemaphore := r\<rparr>) out)"

text \<open>\<open>bool is_empty() const\<close>\<close>

definition is_empty :: "'a RingBuffer \<Rightarrow> bool" where
  "is_empty s = (writeIndex s = readIndex s)"

subsection \<open>Sequences of calls\<close>

text \<open>
  A caller's calls and what each hands back: the returned value together with
  the caller's output argument after the call. \<open>exec\<close> dispatches a call to
  the member function, \<open>run\<close> makes the calls of a list one after the other
  and stops, with \<open>None\<close>, at a call that waits.
\<close>

datatype 'a call =
    Write "'a block"
  | WriteCollection "'a list"
  | Read "'a block"
  | ReadFor "'a block" nat
  | ReadCollection "'a list"
  | ReadForCollection "'a list" nat
  | ReadBytes "'a list" nat
  | ReadBytesFor "'a list" nat nat
  | IsEmpty

datatype 'a reply =
    RVoid
  | RSize nat
  | RBool bool
  | RBlock bool "'a block"
  | RCollection bool "'a list"
  | RBytes bool "'a list" nat

fun exec :: "nat \<Rightarrow> nat \<Rightarrow> 'a call \<Rightarrow> 'a RingBuffer \<Rightarrow> ('a reply \<times> 'a RingBuffer) option" where
  "exec Blocks BlockSize (Write d) s =
     map_option (\<lambda>s'. (RVoid, s')) (write_block Blocks d s)"
| "exec Blocks BlockSize (WriteCollection c) s =
     map_option (\<lambda>(n, s'). (RSize n, s')) (write_collection Blocks BlockSize c s)"
| "exec Blocks BlockSize (Read b) s =
     map_option (\<lambda>(ok, s', b'). (RBlock ok b', s')) (read Blocks s b)"
| "exec Blocks BlockSize (ReadFor b t) s =
     map_option (\<lambda>(ok, s', b'). (RBlock ok b', s')) (read_for Blocks s b t)"
| "exec Blocks BlockSize (ReadCollection c) s =
     map_option (\<lambda>(ok, s', c'). (RCollection ok c', s')) (read_collection s c)"
| "exec Blocks BlockSize (ReadForCollection c t) s =
     (case read_for_collection s c t of (ok, s', c') \<Rightarrow> Some (RCollection ok c', s'))"
| "exec Blocks BlockSize (ReadBytes mem sz) s =
     map_option (\<lambda>(ok, s', mem', sz'). (RBytes ok mem' sz', s')) (read_bytes s (mem, sz))"
| "exec Blocks BlockSize (ReadBytesFor mem sz t) s =
     (case read_bytes_for s (mem, sz) t of (ok, s', mem', sz') \<Rightarrow> Some (RBytes ok mem' sz', s'))"
| "exec Blocks BlockSize IsEmpty s = Some (RBool (is_empty s), s)"

fun run ::
  "nat \<Rightarrow> nat \<Rightarrow> 'a call list \<Rightarrow> 'a RingBuffer \<Rightarrow> ('a reply list \<times> 'a RingBuffer) option" where
  "run Blocks BlockSize [] s = Some ([], s)"
| "run Blocks BlockSize (c # cs) s =
     (case exec Blocks BlockSize c s of
        None \<Rightarrow> None
      | Some (r, s') \<Rightarrow>
          (case run Blocks BlockSize cs s' of
             None \<Rightarrow> None
           | Some (rs, s'') \<Rightarrow> Some (r # rs, s'')))"

fun is_write :: "'a call \<Rightarrow> bool" where
  "is_write (Write d) = True"
| "is_write (WriteCollection c) = True"
| "is_write c = False"

text \<open>
  The blocks that the calls of \<open>write(block)\<close> in a list pass in, the blocks that
  the block reads of a list of replies hand back with \<open>true\<close>, and the calls
  that are a block write or a block read.
\<close>

fun written :: "'a call list \<Rightarrow> 'a block list" where
  "written [] = []"
| "written (Write d # cs) = d # written cs"
| "written (c # cs) = written cs"

fun delivered :: "'a reply list \<Rightarrow> 'a block list" where
  "delivered [] = []"
| "delivered (RBlock True b # rs) = b # delivered rs"
| "delivered (r # rs) = delivered rs"

fun is_block_call :: "'a call \<Rightarrow> bool" where
  "is_block_call (Write d) = True"
| "is_block_call (Read b) = True"
| "is_block_call (ReadFor b t) = True"
| "is_block_call c = False"

text \<open>
  The buffer holds the blocks \<open>pending\<close>: they are in the slots from the read
  cursor up to the write cursor, in order, and the counter of \<open>writeSemaphore_\<close>
  admits no more writes than there are other slots.
\<close>

definition holds_pending :: "nat \<Rightarrow> 'a RingBuffer \<Rightarrow> 'a block list \<Rightarrow> bool" where
  "holds_pending Blocks s pending \<longleftrightarrow>
     writeIndex s < Blocks \<and> readIndex s < Blocks \<and> length (blocks s) = Blocks
     \<and> writeIndex s = (readIndex s + length pending) mod Blocks
     \<and> writeSemaphore s + length pending \<le> Blocks
     \<and> (\<forall>j<length pending. blocks s ! ((readIndex s + j) mod Blocks) = pending ! j)"

text \<open>The states a new buffer with first slots \<open>bs\<close> gets into by calls that return.\<close>

inductive reachable :: "nat \<Rightarrow> nat \<Rightarrow> 'a block list \<Rightarrow> 'a RingBuffer \<Rightarrow> bool"
  for Blocks :: nat and BlockSize :: nat and bs :: "'a block list" where
  reachable_init: "reachable Blocks BlockSize bs (RingBuffer_init Blocks bs)"
| reachable_exec:
    "reachable Blocks BlockSize bs s \<Longrightarrow> exec Blocks BlockSize c s = Some (r, s')
       \<Longrightarrow> reachable Blocks BlockSize bs s'"

text \<open>
  The elements of the source's test are of a class around \<open>int\<close> whose default
  value is \<open>0\<close>. The examples below have slots of three such elements, all \<open>0\<close>
  in a new buffer.
\<close>

definition zero_block :: "int block" where
  "zero_block = \<lparr>size' = 0, data = [0, 0, 0]\<rparr>"

definition first_block :: "int block" where
  "first_block = \<lparr>size' = 3, data = [1, 2, 3]\<rparr>"

definition second_block :: "int block" where
  "second_block = \<lparr>size' = 2, data = [4, 5, 0]\<rparr>"

text \<open>A buffer of three slots after two writes, and a buffer of two slots after two.\<close>

definition two_written :: "int RingBuffer" where
  "two_written =
     \<lparr>writeSemaphore = 1, readSemaphore = 2, writeIndex = 2, readIndex = 0,
      blocks = [first_block, second_block, zero_block]\<rparr>"

definition full_buffer :: "int RingBuffer" where
  "full_buffer =
     \<lparr>writeSemaphore = 0, readSemaphore = 2, writeIndex = 0, readIndex = 0,
      blocks = [first_block, second_block]\<rparr>"

section \<open>Properties\<close>

lemmas call_defs = write_block_def write_collection_def read_def read_for_def
  readImpl_def read_collection_def read_for_collection_def read_bytes_def read_bytes_for_def
  readImpl_func_def append_block_def reserve_def copy_bytes_def is_empty_def
  acquire_def try_acquire_for_def release_def Let_def

lemmas example_defs = RingBuffer_init_def zero_block_def first_block_def second_block_def
  two_written_def full_buffer_def

lemma two_written_reached:
  "run 3 3 [Write first_block, WriteCollection [4, 5]]
       (RingBuffer_init 3 [zero_block, zero_block, zero_block])
   = Some ([RVoid, RSize 2], two_written)"
  by (simp add: call_defs example_defs)

lemma full_buffer_reached:
  "run 2 3 [Write first_block, WriteCollection [4, 5]] (RingBuffer_init 2 [zero_block, zero_block])
   = Some ([RVoid, RSize 2], full_buffer)"
  by (simp add: call_defs example_defs)

subsection \<open>Cursors, slots and counters of the reachable states\<close>

text \<open>
  A cursor outside of the slot array would be undefined behaviour in the
  source (\<open>std::array::operator[]\<close>), and \<open>writeIndex_ + 1\<close> would wrap at the
  largest \<open>std::size_t\<close>. Neither happens: in every reachable state both
  cursors are below \<open>Blocks\<close>, the array keeps its \<open>Blocks\<close> slots, and the two
  counters together never exceed \<open>Blocks\<close>, so that \<open>release\<close> stays within the
  semaphore's maximum.
\<close>

lemma exec_cursors_in_range:
  assumes "exec Blocks BlockSize c s = Some (r, s')" and "0 < Blocks"
    and "writeIndex s < Blocks" and "readIndex s < Blocks"
  shows "writeIndex s' < Blocks \<and> readIndex s' < Blocks"
  using assms
  by (cases c) (auto simp: call_defs split: if_splits option.splits prod.splits)

lemma exec_length_blocks:
  assumes "exec Blocks BlockSize c s = Some (r, s')"
  shows "length (blocks s') = length (blocks s)"
  using assms
  by (cases c) (auto simp: call_defs split: if_splits option.splits prod.splits)

lemma exec_semaphore_sum:
  assumes "exec Blocks BlockSize c s = Some (r, s')"
  shows "writeSemaphore s' + readSemaphore s' \<le> writeSemaphore s + readSemaphore s"
  using assms
  by (cases c) (auto simp: call_defs split: if_splits option.splits prod.splits)

lemma reachable_invariant:
  assumes "reachable Blocks BlockSize bs s" and "0 < Blocks" and "length bs = Blocks"
  shows "writeIndex s < Blocks \<and> readIndex s < Blocks \<and> length (blocks s) = Blocks
       \<and> writeSemaphore s + readSemaphore s \<le> Blocks"
  using assms
proof (induction rule: reachable.induct)
  case reachable_init
  then show ?case by (simp add: RingBuffer_init_def)
next
  case (reachable_exec s c r s')
  then have "writeIndex s < Blocks" "readIndex s < Blocks" "length (blocks s) = Blocks"
    "writeSemaphore s + readSemaphore s \<le> Blocks"
    by simp_all
  with reachable_exec.hyps(2) \<open>0 < Blocks\<close> show ?case
    using exec_cursors_in_range [of Blocks BlockSize c s r s']
      exec_length_blocks [of Blocks BlockSize c s r s']
      exec_semaphore_sum [of Blocks BlockSize c s r s']
    by simp
qed

text \<open>The writes and the block reads move their cursor by one, modulo \<open>Blocks\<close>.\<close>

lemma write_advances_writeIndex:
  "(write_block Blocks d s = Some s1 \<longrightarrow>
      writeIndex s1 = (writeIndex s + 1) mod Blocks \<and> readIndex s1 = readIndex s)
   \<and> (write_collection Blocks BlockSize collection s = Some (n, s2) \<longrightarrow>
      writeIndex s2 = (writeIndex s + 1) mod Blocks \<and> readIndex s2 = readIndex s)"
  by (auto simp: write_block_def write_collection_def acquire_def Let_def split: if_splits)

lemma block_read_advances_readIndex:
  "(read Blocks s block = Some (True, s1, block1) \<longrightarrow>
      readIndex s1 = (readIndex s + 1) mod Blocks \<and> writeIndex s1 = writeIndex s
      \<and> block1 = blocks s ! readIndex s)
   \<and> (read_for Blocks s block timeout = Some (True, s2, block2) \<longrightarrow>
      readIndex s2 = (readIndex s + 1) mod Blocks \<and> writeIndex s2 = writeIndex s
      \<and> block2 = blocks s ! readIndex s)"
  by (auto simp: read_def read_for_def readImpl_def acquire_def try_acquire_for_def Let_def
      split: if_splits)

lemma failed_block_read_keeps_cursors:
  "(read Blocks s block = Some (False, s1, block1) \<longrightarrow>
      readIndex s1 = readIndex s \<and> writeIndex s1 = writeIndex s \<and> block1 = block)
   \<and> (read_for Blocks s block timeout = Some (False, s2, block2) \<longrightarrow>
      readIndex s2 = readIndex s \<and> writeIndex s2 = writeIndex s \<and> block2 = block)"
  by (auto simp: read_def read_for_def readImpl_def acquire_def try_acquire_for_def Let_def
      split: if_splits)

subsection \<open>Sequences of writes\<close>

lemma exec_write_effect:
  assumes "is_write c" and "0 < writeSemaphore s"
  shows "\<exists>r s'. exec Blocks BlockSize c s = Some (r, s')
           \<and> writeIndex s' = (writeIndex s + 1) mod Blocks
           \<and> readIndex s' = readIndex s
           \<and> writeSemaphore s' = writeSemaphore s - 1
           \<and> readSemaphore s' = readSemaphore s + 1"
  using assms
  by (cases c) (simp_all add: write_block_def write_collection_def acquire_def release_def Let_def)

lemma run_writes:
  assumes "\<forall>c\<in>set cs. is_write c" and "length cs \<le> writeSemaphore s"
    and "writeIndex s < Blocks"
  shows "\<exists>rs s'. run Blocks BlockSize cs s = Some (rs, s')
           \<and> writeIndex s' = (writeIndex s + length cs) mod Blocks
           \<and> readIndex s' = readIndex s
           \<and> writeSemaphore s' = writeSemaphore s - length cs
           \<and> readSemaphore s' = readSemaphore s + length cs"
  using assms
proof (induction cs arbitrary: s)
  case Nil
  then show ?case by simp
next
  case (Cons c cs)
  from Cons.prems have w: "is_write c" and pos: "0 < writeSemaphore s" by auto
  from exec_write_effect [OF w pos, of Blocks BlockSize]
  obtain r s1 where e: "exec Blocks BlockSize c s = Some (r, s1)"
    and wi: "writeIndex s1 = (writeIndex s + 1) mod Blocks"
    and ri: "readIndex s1 = readIndex s"
    and ws: "writeSemaphore s1 = writeSemaphore s - 1"
    and rs: "readSemaphore s1 = readSemaphore s + 1"
    by blast
  from Cons.prems have B: "0 < Blocks" by simp
  have "\<forall>c\<in>set cs. is_write c" "length cs \<le> writeSemaphore s1" "writeIndex s1 < Blocks"
    using Cons.prems ws wi B by auto
  from Cons.IH [OF this]
  obtain rs' s' where r: "run Blocks BlockSize cs s1 = Some (rs', s')"
    and wi': "writeIndex s' = (writeIndex s1 + length cs) mod Blocks"
    and ri': "readIndex s' = readIndex s1"
    and ws': "writeSemaphore s' = writeSemaphore s1 - length cs"
    and rs'': "readSemaphore s' = readSemaphore s1 + length cs"
    by blast
  have "writeIndex s' = (writeIndex s + length (c # cs)) mod Blocks"
    using wi' wi by (simp add: mod_add_left_eq add.assoc)
  then show ?case
    using e r ri ri' ws ws' rs rs'' by simp
qed

text \<open>
  After \<open>Blocks\<close> writes on a new buffer the counter of \<open>writeSemaphore_\<close> is
  zero and the next write waits; only a read that returns \<open>true\<close> raises the
  counter again.
\<close>

lemma write_waits_on_zero_counter:
  "writeSemaphore s = 0 \<Longrightarrow>
     write_block Blocks d s = None \<and> write_collection Blocks BlockSize collection s = None"
  by (simp add: write_block_def write_collection_def acquire_def)

lemma writes_fill_the_buffer:
  assumes "length cs = Blocks" and "\<forall>c\<in>set cs. is_write c"
  shows "\<exists>rs s'. run Blocks BlockSize cs (RingBuffer_init Blocks bs) = Some (rs, s')
           \<and> writeSemaphore s' = 0 \<and> readSemaphore s' = Blocks
           \<and> write_block Blocks d s' = None
           \<and> write_collection Blocks BlockSize collection s' = None"
proof (cases "Blocks = 0")
  case True
  with assms show ?thesis
    by (simp add: RingBuffer_init_def write_block_def write_collection_def acquire_def)
next
  case False
  have "length cs \<le> writeSemaphore (RingBuffer_init Blocks bs)"
    and "writeIndex (RingBuffer_init Blocks bs) < Blocks"
    using assms False by (simp_all add: RingBuffer_init_def)
  from run_writes [OF assms(2) this, of BlockSize] assms(1)
  obtain rs s' where "run Blocks BlockSize cs (RingBuffer_init Blocks bs) = Some (rs, s')"
    and "writeSemaphore s' = 0" and "readSemaphore s' = Blocks"
    by (auto simp: RingBuffer_init_def)
  then show ?thesis
    using write_waits_on_zero_counter [of s' Blocks d BlockSize collection] by simp
qed

lemma writeSemaphore_grows_only_by_read:
  assumes "exec Blocks BlockSize c s = Some (r, s')" and "writeSemaphore s < writeSemaphore s'"
  shows "writeSemaphore s' = writeSemaphore s + 1 \<and> readSemaphore s' + 1 = readSemaphore s
       \<and> ((\<exists>b. r = RBlock True b) \<or> (\<exists>xs. r = RCollection True xs)
            \<or> (\<exists>m n. r = RBytes True m n))"
  using assms
  by (cases c) (auto simp: call_defs split: if_splits option.splits prod.splits)

subsection \<open>First in, first out below the capacity\<close>

lemma mod_add_neq:
  fixes a d n :: nat
  assumes "a < n" and "0 < d" and "d < n"
  shows "(a + d) mod n \<noteq> a"
proof (cases "a + d < n")
  case True
  with assms show ?thesis by simp
next
  case False
  with assms have "(a + d) mod n = a + d - n"
    by (simp add: le_mod_geq)
  with assms False show ?thesis by simp
qed

lemma run_append:
  "run Blocks BlockSize (cs @ ds) s =
     (case run Blocks BlockSize cs s of
        None \<Rightarrow> None
      | Some (rs, s') \<Rightarrow>
          (case run Blocks BlockSize ds s' of
             None \<Rightarrow> None
           | Some (rs', s'') \<Rightarrow> Some (rs @ rs', s'')))"
  by (induction cs arbitrary: s) (auto split: option.splits)

text \<open>
  Writing the blocks \<open>ws\<close>, no more than there are slots and permits, puts them
  into the slots from the write cursor on and leaves every other slot.
\<close>

lemma run_write_blocks:
  assumes "writeIndex s < Blocks" and "length (blocks s) = Blocks"
    and "length ws \<le> writeSemaphore s" and "length ws \<le> Blocks"
  shows "\<exists>s'. run Blocks BlockSize (map Write ws) s = Some (replicate (length ws) RVoid, s')
           \<and> writeIndex s' = (writeIndex s + length ws) mod Blocks
           \<and> readIndex s' = readIndex s
           \<and> readSemaphore s' = readSemaphore s + length ws
           \<and> length (blocks s') = Blocks
           \<and> (\<forall>j<length ws. blocks s' ! ((writeIndex s + j) mod Blocks) = ws ! j)
           \<and> (\<forall>i<Blocks. (\<forall>j<length ws. i \<noteq> (writeIndex s + j) mod Blocks)
                 \<longrightarrow> blocks s' ! i = blocks s ! i)"
  using assms
proof (induction ws arbitrary: s)
  case Nil
  then show ?case by simp
next
  case (Cons w ws)
  define s1 where "s1 = s\<lparr>writeSemaphore := writeSemaphore s - 1,
                  blocks := (blocks s)[writeIndex s := w],
                  writeIndex := (writeIndex s + 1) mod Blocks,
                  readSemaphore := readSemaphore s + 1\<rparr>"
  have B: "0 < Blocks" using Cons.prems by simp
  have e: "exec Blocks BlockSize (Write w) s = Some (RVoid, s1)"
    using Cons.prems by (simp add: write_block_def acquire_def release_def s1_def)
  have p: "writeIndex s1 < Blocks" "length (blocks s1) = Blocks"
    "length ws \<le> writeSemaphore s1" "length ws \<le> Blocks"
    using Cons.prems B by (simp_all add: s1_def)
  from Cons.IH [OF p] obtain s' where
    r: "run Blocks BlockSize (map Write ws) s1 = Some (replicate (length ws) RVoid, s')"
    and wi: "writeIndex s' = (writeIndex s1 + length ws) mod Blocks"
    and ri: "readIndex s' = readIndex s1"
    and rs: "readSemaphore s' = readSemaphore s1 + length ws"
    and len: "length (blocks s') = Blocks"
    and new: "\<forall>j<length ws. blocks s' ! ((writeIndex s1 + j) mod Blocks) = ws ! j"
    and old: "\<forall>i<Blocks. (\<forall>j<length ws. i \<noteq> (writeIndex s1 + j) mod Blocks)
                 \<longrightarrow> blocks s' ! i = blocks s1 ! i"
    by blast
  have shift: "(writeIndex s1 + j) mod Blocks = (writeIndex s + Suc j) mod Blocks" for j
    by (simp add: s1_def mod_add_left_eq)
  have fresh: "writeIndex s \<noteq> (writeIndex s + Suc j) mod Blocks" if "j < length ws" for j
    using mod_add_neq [of "writeIndex s" Blocks "Suc j"] that Cons.prems by simp
  have first: "blocks s' ! writeIndex s = w"
  proof -
    have "blocks s' ! writeIndex s = blocks s1 ! writeIndex s"
      using old Cons.prems(1) fresh shift by simp
    then show ?thesis using Cons.prems by (simp add: s1_def)
  qed
  have c1: "run Blocks BlockSize (map Write (w # ws)) s
              = Some (replicate (length (w # ws)) RVoid, s')"
    using e r by simp
  have c2: "writeIndex s' = (writeIndex s + length (w # ws)) mod Blocks"
    using wi shift [of "length ws"] by simp
  have c3: "readIndex s' = readIndex s" using ri by (simp add: s1_def)
  have c4: "readSemaphore s' = readSemaphore s + length (w # ws)"
    using rs by (simp add: s1_def)
  have c5: "\<forall>j<length (w # ws). blocks s' ! ((writeIndex s + j) mod Blocks) = (w # ws) ! j"
  proof (intro allI impI)
    fix j assume j: "j < length (w # ws)"
    show "blocks s' ! ((writeIndex s + j) mod Blocks) = (w # ws) ! j"
    proof (cases j)
      case 0
      then show ?thesis using first Cons.prems(1) by simp
    next
      case (Suc k)
      with new j have "blocks s' ! ((writeIndex s1 + k) mod Blocks) = ws ! k" by simp
      then show ?thesis using Suc by (simp only: shift nth_Cons_Suc)
    qed
  qed
  have c6: "\<forall>i<Blocks. (\<forall>j<length (w # ws). i \<noteq> (writeIndex s + j) mod Blocks)
                 \<longrightarrow> blocks s' ! i = blocks s ! i"
  proof (intro allI impI)
    fix i assume i: "i < Blocks"
      and ne: "\<forall>j<length (w # ws). i \<noteq> (writeIndex s + j) mod Blocks"
    from ne have ne0: "i \<noteq> writeIndex s"
      using Cons.prems(1) by (auto dest: spec [of _ 0])
    have "\<forall>j<length ws. i \<noteq> (writeIndex s1 + j) mod Blocks"
      using ne shift by auto
    with old i have "blocks s' ! i = blocks s1 ! i" by simp
    also have "\<dots> = blocks s ! i" using ne0 by (simp add: s1_def)
    finally show "blocks s' ! i = blocks s ! i" .
  qed
  from c1 c2 c3 c4 len c5 c6 show ?case by blast
qed

text \<open>
  Block reads hand the slots from the read cursor on back in order, as long as
  fewer than \<open>Blocks\<close> of them are filled.
\<close>

lemma run_read_blocks:
  assumes "readIndex s < Blocks" and "length ws < Blocks"
    and "writeIndex s = (readIndex s + length ws) mod Blocks"
    and "length ws \<le> readSemaphore s"
    and "\<forall>j<length ws. blocks s ! ((readIndex s + j) mod Blocks) = ws ! j"
    and "length outs = length ws"
  shows "\<exists>s'. run Blocks BlockSize (map Read outs) s = Some (map (RBlock True) ws, s')
           \<and> readIndex s' = writeIndex s \<and> writeIndex s' = writeIndex s
           \<and> blocks s' = blocks s"
  using assms
proof (induction ws arbitrary: s outs)
  case Nil
  then show ?case by simp
next
  case (Cons w ws)
  from Cons.prems obtain out outs' where outs: "outs = out # outs'"
    and lo: "length outs' = length ws"
    by (cases outs) auto
  define s1 where "s1 = s\<lparr>readSemaphore := readSemaphore s - 1,
                  readIndex := (readIndex s + 1) mod Blocks,
                  writeSemaphore := writeSemaphore s + 1\<rparr>"
  have B: "0 < Blocks" using Cons.prems by simp
  have ne: "readIndex s \<noteq> writeIndex s"
    using mod_add_neq [of "readIndex s" Blocks "length (w # ws)"] Cons.prems by simp
  have fst: "blocks s ! readIndex s = w"
    using Cons.prems(1,5) by (auto dest: spec [of _ 0])
  have e: "exec Blocks BlockSize (Read out) s = Some (RBlock True w, s1)"
    using Cons.prems(4) ne fst
    by (simp add: read_def readImpl_def acquire_def release_def s1_def Let_def)
  have shift: "(readIndex s1 + j) mod Blocks = (readIndex s + Suc j) mod Blocks" for j
    by (simp add: s1_def mod_add_left_eq)
  have p: "readIndex s1 < Blocks" "length ws < Blocks"
    "writeIndex s1 = (readIndex s1 + length ws) mod Blocks"
    "length ws \<le> readSemaphore s1"
    using Cons.prems B shift [of "length ws"] by (simp_all add: s1_def)
  have q: "\<forall>j<length ws. blocks s1 ! ((readIndex s1 + j) mod Blocks) = ws ! j"
  proof (intro allI impI)
    fix j assume "j < length ws"
    then have "blocks s ! ((readIndex s + Suc j) mod Blocks) = (w # ws) ! Suc j"
      using Cons.prems(5) by (auto dest: spec [of _ "Suc j"])
    then show "blocks s1 ! ((readIndex s1 + j) mod Blocks) = ws ! j"
      using shift [of j] by (simp add: s1_def)
  qed
  from Cons.IH [OF p q lo] obtain s' where
    r: "run Blocks BlockSize (map Read outs') s1 = Some (map (RBlock True) ws, s')"
    and f: "readIndex s' = writeIndex s1" "writeIndex s' = writeIndex s1" "blocks s' = blocks s1"
    by blast
  have "run Blocks BlockSize (map Read outs) s = Some (map (RBlock True) (w # ws), s')"
    using e r outs by (simp del: exec.simps)
  then show ?case using f by (simp add: s1_def)
qed

lemma fifo_below_capacity:
  assumes "length ws < Blocks" and "length bs = Blocks" and "length outs = length ws"
  shows "\<exists>s'. run Blocks BlockSize (map Write ws @ map Read outs) (RingBuffer_init Blocks bs)
                = Some (replicate (length ws) RVoid @ map (RBlock True) ws, s')"
proof -
  let ?s = "RingBuffer_init Blocks bs"
  have "writeIndex ?s < Blocks" "length (blocks ?s) = Blocks"
    "length ws \<le> writeSemaphore ?s" "length ws \<le> Blocks"
    using assms by (simp_all add: RingBuffer_init_def)
  from run_write_blocks [OF this, of BlockSize] obtain s1 where
    w: "run Blocks BlockSize (map Write ws) ?s = Some (replicate (length ws) RVoid, s1)"
    and wi: "writeIndex s1 = (writeIndex ?s + length ws) mod Blocks"
    and ri: "readIndex s1 = readIndex ?s"
    and rs: "readSemaphore s1 = readSemaphore ?s + length ws"
    and new: "\<forall>j<length ws. blocks s1 ! ((writeIndex ?s + j) mod Blocks) = ws ! j"
    by blast
  have "readIndex s1 < Blocks" "length ws < Blocks"
    "writeIndex s1 = (readIndex s1 + length ws) mod Blocks"
    "length ws \<le> readSemaphore s1"
    "\<forall>j<length ws. blocks s1 ! ((readIndex s1 + j) mod Blocks) = ws ! j"
    using assms wi ri rs new by (simp_all add: RingBuffer_init_def)
  from run_read_blocks [OF this assms(3), of BlockSize] obtain s' where
    "run Blocks BlockSize (map Read outs) s1 = Some (map (RBlock True) ws, s')"
    by blast
  with w show ?thesis by (simp add: run_append)
qed

subsection \<open>First in, first out for block writes and block reads\<close>

text \<open>
  In any sequence of block writes and block reads, the reads that return
  \<open>true\<close> hand back the written blocks in the order of the writes, and no
  write replaces a block that is still pending.
\<close>

lemma mod_add_inj:
  fixes a j k n :: nat
  assumes "j < n" and "k < n" and "(a + j) mod n = (a + k) mod n"
  shows "j = k"
proof (rule ccontr)
  assume ne: "j \<noteq> k"
  have *: "False" if "x < y" "y < n" "(a + x) mod n = (a + y) mod n" for x y
  proof -
    have "((a + x) mod n + (y - x)) mod n \<noteq> (a + x) mod n"
      using mod_add_neq [of "(a + x) mod n" n "y - x"] that by simp
    moreover have "((a + x) mod n + (y - x)) mod n = (a + x + (y - x)) mod n"
      by (simp only: mod_add_left_eq)
    moreover have "a + x + (y - x) = a + y"
      using that(1) by simp
    ultimately show False using that by simp
  qed
  from ne consider "j < k" | "k < j" by linarith
  then show False
    using * [of j k] * [of k j] assms by cases simp_all
qed

lemma holds_pending_write:
  assumes h: "holds_pending Blocks s p" and e: "exec Blocks BlockSize (Write d) s = Some (r, s')"
  shows "holds_pending Blocks s' (p @ [d])"
proof -
  from e have pos: "0 < writeSemaphore s"
    and s': "s' = s\<lparr>writeSemaphore := writeSemaphore s - 1,
                  blocks := (blocks s)[writeIndex s := d],
                  writeIndex := (writeIndex s + 1) mod Blocks,
                  readSemaphore := readSemaphore s + 1\<rparr>"
    by (auto simp: write_block_def acquire_def release_def split: if_splits)
  from h have wi: "writeIndex s < Blocks" and ri: "readIndex s < Blocks"
    and len: "length (blocks s) = Blocks"
    and eq: "writeIndex s = (readIndex s + length p) mod Blocks"
    and sem: "writeSemaphore s + length p \<le> Blocks"
    and slots: "\<forall>j<length p. blocks s ! ((readIndex s + j) mod Blocks) = p ! j"
    by (simp_all add: holds_pending_def)
  from pos sem have lp: "length p < Blocks" by simp
  have "blocks s' ! ((readIndex s' + j) mod Blocks) = (p @ [d]) ! j" if j: "j < length (p @ [d])" for j
  proof (cases "j < length p")
    case True
    then have "(readIndex s + j) mod Blocks \<noteq> writeIndex s"
      using mod_add_inj [of j Blocks "length p" "readIndex s"] lp eq by auto
    then show ?thesis using True slots by (simp add: s' nth_append)
  next
    case False
    with j have "j = length p" by simp
    then show ?thesis using eq wi len by (simp add: s')
  qed
  moreover have "writeIndex s' = (readIndex s' + length (p @ [d])) mod Blocks"
    using eq by (simp add: s' mod_add_left_eq mod_Suc_eq)
  ultimately show ?thesis
    using wi ri len sem pos by (simp add: holds_pending_def s')
qed

lemma holds_pending_read:
  assumes h: "holds_pending Blocks s p"
    and e: "read Blocks s b = Some (ok, s', b') \<or> read_for Blocks s b t = Some (ok, s', b')"
  shows "if ok then \<exists>p'. p = b' # p' \<and> holds_pending Blocks s' p'
         else holds_pending Blocks s' p"
proof -
  from h have wi: "writeIndex s < Blocks" and ri: "readIndex s < Blocks"
    and len: "length (blocks s) = Blocks"
    and eq: "writeIndex s = (readIndex s + length p) mod Blocks"
    and sem: "writeSemaphore s + length p \<le> Blocks"
    and slots: "\<forall>j<length p. blocks s ! ((readIndex s + j) mod Blocks) = p ! j"
    by (simp_all add: holds_pending_def)
  show ?thesis
  proof (cases ok)
    case False
    with e have "readIndex s' = readIndex s \<and> writeIndex s' = writeIndex s
        \<and> blocks s' = blocks s \<and> writeSemaphore s' = writeSemaphore s"
      by (auto simp: read_def read_for_def readImpl_def acquire_def try_acquire_for_def Let_def
          split: if_splits)
    with h False show ?thesis by (simp add: holds_pending_def)
  next
    case True
    with e have ne: "readIndex s \<noteq> writeIndex s"
      and b': "b' = blocks s ! readIndex s"
      and ri': "readIndex s' = (readIndex s + 1) mod Blocks"
      and wi': "writeIndex s' = writeIndex s"
      and bl': "blocks s' = blocks s"
      and ws': "writeSemaphore s' = writeSemaphore s + 1"
      by (auto simp: read_def read_for_def readImpl_def acquire_def try_acquire_for_def
          release_def Let_def split: if_splits)
    from ne eq ri have "p \<noteq> []" by auto
    then obtain x p' where p: "p = x # p'" by (cases p) auto
    from slots p ri have x: "x = b'" by (auto simp: b' dest: spec [of _ 0])
    have shift: "(readIndex s' + j) mod Blocks = (readIndex s + Suc j) mod Blocks" for j
      by (simp add: ri' mod_add_left_eq)
    have "blocks s' ! ((readIndex s' + j) mod Blocks) = p' ! j" if "j < length p'" for j
      using slots that p by (auto simp: shift bl' dest: spec [of _ "Suc j"])
    moreover have "writeIndex s' = (readIndex s' + length p') mod Blocks"
      using eq p shift [of "length p'"] by (simp add: wi')
    moreover have "readIndex s' < Blocks" using ri by (simp add: ri')
    ultimately have "holds_pending Blocks s' p'"
      using wi len sem p by (simp add: holds_pending_def wi' bl' ws')
    with True p x show ?thesis by simp
  qed
qed

lemma fifo_of_block_calls:
  assumes "\<forall>c\<in>set cs. is_block_call c" and "holds_pending Blocks s p"
    and "run Blocks BlockSize cs s = Some (rs, s')"
  shows "\<exists>p'. p @ written cs = delivered rs @ p' \<and> holds_pending Blocks s' p'"
  using assms
proof (induction cs arbitrary: s p rs)
  case Nil
  then show ?case by simp
next
  case (Cons c cs)
  from Cons.prems(3) obtain r s1 rs1 where e: "exec Blocks BlockSize c s = Some (r, s1)"
    and run: "run Blocks BlockSize cs s1 = Some (rs1, s')" and rs: "rs = r # rs1"
    by (auto split: option.splits)
  from Cons.prems(1) have blk: "is_block_call c" and rest: "\<forall>c\<in>set cs. is_block_call c"
    by simp_all
  have "\<exists>p1. holds_pending Blocks s1 p1 \<and> p @ written [c] = delivered [r] @ p1"
  proof (cases c)
    case (Write d)
    with e show ?thesis
      using holds_pending_write [OF Cons.prems(2), of BlockSize d r s1] by auto
  next
    case (Read b)
    with e obtain ok b' where r: "r = RBlock ok b'" and "read Blocks s b = Some (ok, s1, b')"
      by auto
    then show ?thesis
      using holds_pending_read [OF Cons.prems(2), of b ok s1 b'] Read by (cases ok) auto
  next
    case (ReadFor b t)
    with e obtain ok b' where r: "r = RBlock ok b'"
      and "read_for Blocks s b t = Some (ok, s1, b')"
      by auto
    then show ?thesis
      using holds_pending_read [OF Cons.prems(2), of b ok s1 b' t] ReadFor by (cases ok) auto
  qed (use blk in simp_all)
  then obtain p1 where h1: "holds_pending Blocks s1 p1"
    and p1: "p @ written [c] = delivered [r] @ p1"
    by blast
  from Cons.IH [OF rest h1 run] obtain p' where
    "p1 @ written cs = delivered rs1 @ p'" and h': "holds_pending Blocks s' p'"
    by blast
  have w: "written (c # cs) = written [c] @ written cs"
    by (cases c) simp_all
  have d: "delivered (r # rs1) = delivered [r] @ delivered rs1"
    by (cases "(r # rs1)" rule: delivered.cases) simp_all
  have "p @ written (c # cs) = delivered rs @ p'"
    using p1 \<open>p1 @ written cs = delivered rs1 @ p'\<close> rs
    by (metis w d append.assoc)
  with h' show ?case by blast
qed

lemma new_buffer_holds_nothing:
  assumes "0 < Blocks" and "length bs = Blocks"
  shows "holds_pending Blocks (RingBuffer_init Blocks bs) []"
  using assms by (simp add: holds_pending_def RingBuffer_init_def)

lemma fifo_on_new_buffer:
  assumes "0 < Blocks" and "length bs = Blocks" and "\<forall>c\<in>set cs. is_block_call c"
    and "run Blocks BlockSize cs (RingBuffer_init Blocks bs) = Some (rs, s')"
  shows "\<exists>p'. written cs = delivered rs @ p' \<and> holds_pending Blocks s' p'"
  using fifo_of_block_calls [OF assms(3) new_buffer_holds_nothing [OF assms(1,2)] assms(4)]
  by simp

section \<open>The claims of the specification\<close>

text \<open>
  Claim C1: a successful collection read, \<open>read(out_collection)\<close> or
  \<open>read_for(out_collection, timeout)\<close>, appends exactly the first \<open>size_\<close>
  elements of the slot at the read cursor to the caller's sequence.

  The code appends the whole array of the slot: after \<open>write\<close> of the
  collection \<open>[4, 5]\<close> into a slot of three elements, whose \<open>size_\<close> is then
  \<open>2\<close>, the read appends the three elements \<open>4, 5, 0\<close> to the caller's \<open>[9]\<close>.
\<close>

theorem collection_read_appends_whole_array:
  "run 2 3 [WriteCollection [4, 5], ReadCollection [9]]
       (RingBuffer_init 2 [zero_block, zero_block])
   = Some ([RSize 2, RCollection True [9, 4, 5, 0]],
           \<lparr>writeSemaphore = 2, readSemaphore = 0, writeIndex = 1, readIndex = 0,
            blocks = [second_block, zero_block]\<rparr>)
   \<and> run 2 3 [WriteCollection [4, 5], ReadForCollection [9] 1000]
       (RingBuffer_init 2 [zero_block, zero_block])
   = Some ([RSize 2, RCollection True [9, 4, 5, 0]],
           \<lparr>writeSemaphore = 2, readSemaphore = 0, writeIndex = 1, readIndex = 0,
            blocks = [second_block, zero_block]\<rparr>)"
  by (simp add: call_defs example_defs)

text \<open>
  Claim C2: the cursors stay below \<open>Blocks\<close>, every successful write advances
  \<open>writeIndex\<close> by one modulo \<open>Blocks\<close>, and every successful read, the
  collection and byte variants included, advances \<open>readIndex\<close> by one modulo
  \<open>Blocks\<close>.

  The bounds, the writes and the block reads are as claimed
  (\<open>reachable_invariant\<close>, \<open>write_advances_writeIndex\<close>,
  \<open>block_read_advances_readIndex\<close>). A collection read and a byte read return
  \<open>true\<close> and leave \<open>readIndex\<close> at \<open>0\<close>, where the claim has \<open>1\<close>.
\<close>

theorem collection_and_byte_reads_leave_readIndex:
  "map_option (\<lambda>(rs, s). (rs, readIndex s))
     (run 2 3 [WriteCollection [4, 5], ReadCollection []]
        (RingBuffer_init 2 [zero_block, zero_block]))
   = Some ([RSize 2, RCollection True [4, 5, 0]], 0)
   \<and> map_option (\<lambda>(rs, s). (rs, readIndex s))
     (run 2 3 [WriteCollection [4, 5], ReadBytes [7, 7, 7] 3]
        (RingBuffer_init 2 [zero_block, zero_block]))
   = Some ([RSize 2, RBytes True [4, 5, 7] 2], 0)"
  by (simp add: call_defs example_defs)

text \<open>
  Claim C3: when the recheck of a blocking block read fails, that is the
  cursors are equal after the counter of \<open>readSemaphore_\<close> was decremented,
  the call returns \<open>false\<close>, with the cursors, the slots and the caller's block
  as they were; the counter of \<open>readSemaphore_\<close> stays decremented and that
  of \<open>writeSemaphore_\<close> is not incremented, so the two counters, which added
  up to \<open>Blocks\<close>, add up to \<open>Blocks - 1\<close>.
\<close>

theorem read_recheck_failure_loses_permit:
  assumes "readIndex s = writeIndex s" and "0 < readSemaphore s"
    and "writeSemaphore s + readSemaphore s = Blocks"
  shows "\<exists>s'. read Blocks s block = Some (False, s', block)
           \<and> readIndex s' = readIndex s \<and> writeIndex s' = writeIndex s \<and> blocks s' = blocks s
           \<and> readSemaphore s' = readSemaphore s - 1
           \<and> writeSemaphore s' = writeSemaphore s
           \<and> writeSemaphore s' + readSemaphore s' = Blocks - 1"
  using assms by (auto simp: read_def readImpl_def acquire_def)

theorem read_recheck_failure_loses_permit_witness:
  "readIndex full_buffer = writeIndex full_buffer \<and> 0 < readSemaphore full_buffer
   \<and> writeSemaphore full_buffer + readSemaphore full_buffer = 2
   \<and> (\<exists>s'. read 2 full_buffer zero_block = Some (False, s', zero_block)
           \<and> readIndex s' = 0 \<and> writeIndex s' = 0 \<and> blocks s' = [first_block, second_block]
           \<and> readSemaphore s' = 1 \<and> writeSemaphore s' = 0
           \<and> writeSemaphore s' + readSemaphore s' = 1)"
  using read_recheck_failure_loses_permit [of full_buffer 2 zero_block]
  by (simp add: full_buffer_def)

text \<open>
  Claim C4: the counter of \<open>writeSemaphore_\<close> starts at \<open>Blocks\<close> and that of
  \<open>readSemaphore_\<close> at \<open>0\<close>; every write that returns takes one from the first
  and gives one to the second, every read that returns \<open>true\<close> does the
  opposite, and so each of them keeps the sum of the two counters.
\<close>

theorem semaphore_sum_preserved:
  "writeSemaphore (RingBuffer_init Blocks bs) = Blocks
   \<and> readSemaphore (RingBuffer_init Blocks bs) = 0
   \<and> (write_block Blocks d s = Some s_wb \<longrightarrow>
        writeSemaphore s_wb + 1 = writeSemaphore s \<and> readSemaphore s_wb = readSemaphore s + 1
        \<and> writeSemaphore s_wb + readSemaphore s_wb = writeSemaphore s + readSemaphore s)
   \<and> (write_collection Blocks BlockSize collection s = Some (n, s_wc) \<longrightarrow>
        writeSemaphore s_wc + 1 = writeSemaphore s \<and> readSemaphore s_wc = readSemaphore s + 1
        \<and> writeSemaphore s_wc + readSemaphore s_wc = writeSemaphore s + readSemaphore s)
   \<and> (read Blocks s block = Some (True, s_rd, block_rd) \<longrightarrow>
        readSemaphore s_rd + 1 = readSemaphore s \<and> writeSemaphore s_rd = writeSemaphore s + 1
        \<and> writeSemaphore s_rd + readSemaphore s_rd = writeSemaphore s + readSemaphore s)
   \<and> (read_for Blocks s block timeout = Some (True, s_rf, block_rf) \<longrightarrow>
        readSemaphore s_rf + 1 = readSemaphore s \<and> writeSemaphore s_rf = writeSemaphore s + 1
        \<and> writeSemaphore s_rf + readSemaphore s_rf = writeSemaphore s + readSemaphore s)
   \<and> (read_collection s out = Some (True, s_rc, out_rc) \<longrightarrow>
        readSemaphore s_rc + 1 = readSemaphore s \<and> writeSemaphore s_rc = writeSemaphore s + 1
        \<and> writeSemaphore s_rc + readSemaphore s_rc = writeSemaphore s + readSemaphore s)
   \<and> (read_for_collection s out timeout = (True, s_rfc, out_rfc) \<longrightarrow>
        readSemaphore s_rfc + 1 = readSemaphore s \<and> writeSemaphore s_rfc = writeSemaphore s + 1
        \<and> writeSemaphore s_rfc + readSemaphore s_rfc = writeSemaphore s + readSemaphore s)
   \<and> (read_bytes s mem = Some (True, s_rb, mem_rb) \<longrightarrow>
        readSemaphore s_rb + 1 = readSemaphore s \<and> writeSemaphore s_rb = writeSemaphore s + 1
        \<and> writeSemaphore s_rb + readSemaphore s_rb = writeSemaphore s + readSemaphore s)
   \<and> (read_bytes_for s mem timeout = (True, s_rbf, mem_rbf) \<longrightarrow>
        readSemaphore s_rbf + 1 = readSemaphore s \<and> writeSemaphore s_rbf = writeSemaphore s + 1
        \<and> writeSemaphore s_rbf + readSemaphore s_rbf = writeSemaphore s + readSemaphore s)"
  by (auto simp: RingBuffer_init_def call_defs split: if_splits option.splits prod.splits)

theorem semaphore_sum_preserved_witness:
  "write_block 3 first_block two_written
     = Some \<lparr>writeSemaphore = 0, readSemaphore = 3, writeIndex = 0, readIndex = 0,
              blocks = [first_block, second_block, first_block]\<rparr>
   \<and> write_collection 3 3 [7, 8, 9, 10] two_written
     = Some (3, \<lparr>writeSemaphore = 0, readSemaphore = 3, writeIndex = 0, readIndex = 0,
                 blocks = [first_block, second_block, \<lparr>size' = 3, data = [7, 8, 9]\<rparr>]\<rparr>)
   \<and> read 3 two_written zero_block
     = Some (True, two_written\<lparr>writeSemaphore := 2, readSemaphore := 1, readIndex := 1\<rparr>,
             first_block)
   \<and> read_for 3 two_written zero_block 1000
     = Some (True, two_written\<lparr>writeSemaphore := 2, readSemaphore := 1, readIndex := 1\<rparr>,
             first_block)
   \<and> read_collection two_written [9]
     = Some (True, two_written\<lparr>writeSemaphore := 2, readSemaphore := 1\<rparr>, [9, 1, 2, 3])
   \<and> read_for_collection two_written [9] 1000
     = (True, two_written\<lparr>writeSemaphore := 2, readSemaphore := 1\<rparr>, [9, 1, 2, 3])
   \<and> read_bytes two_written ([7, 7, 7], 2)
     = Some (True, two_written\<lparr>writeSemaphore := 2, readSemaphore := 1\<rparr>, [1, 2, 7], 2)
   \<and> read_bytes_for two_written ([7, 7, 7], 2) 1000
     = (True, two_written\<lparr>writeSemaphore := 2, readSemaphore := 1\<rparr>, [1, 2, 7], 2)
   \<and> writeSemaphore two_written + readSemaphore two_written = 3
   \<and> writeSemaphore (two_written\<lparr>writeSemaphore := 2, readSemaphore := 1, readIndex := 1\<rparr>)
       + readSemaphore (two_written\<lparr>writeSemaphore := 2, readSemaphore := 1, readIndex := 1\<rparr>)
     = 3
   \<and> writeSemaphore (two_written\<lparr>writeSemaphore := 2, readSemaphore := 1\<rparr>)
       + readSemaphore (two_written\<lparr>writeSemaphore := 2, readSemaphore := 1\<rparr>) = 3"
  using semaphore_sum_preserved
    [where Blocks = 3 and BlockSize = 3 and s = two_written and d = first_block
       and s_wb = "\<lparr>writeSemaphore = 0, readSemaphore = 3, writeIndex = 0, readIndex = 0,
                   blocks = [first_block, second_block, first_block]\<rparr>"
       and collection = "[7, 8, 9, 10]" and n = 3
       and s_wc = "\<lparr>writeSemaphore = 0, readSemaphore = 3, writeIndex = 0, readIndex = 0,
                   blocks = [first_block, second_block, \<lparr>size' = 3, data = [7, 8, 9]\<rparr>]\<rparr>"
       and block = zero_block and timeout = 1000
       and s_rd = "two_written\<lparr>writeSemaphore := 2, readSemaphore := 1, readIndex := 1\<rparr>"
       and block_rd = first_block
       and s_rf = "two_written\<lparr>writeSemaphore := 2, readSemaphore := 1, readIndex := 1\<rparr>"
       and block_rf = first_block
       and out = "[9]"
       and s_rc = "two_written\<lparr>writeSemaphore := 2, readSemaphore := 1\<rparr>" and out_rc = "[9, 1, 2, 3]"
       and s_rfc = "two_written\<lparr>writeSemaphore := 2, readSemaphore := 1\<rparr>" and out_rfc = "[9, 1, 2, 3]"
       and mem = "([7, 7, 7], 2)"
       and s_rb = "two_written\<lparr>writeSemaphore := 2, readSemaphore := 1\<rparr>" and mem_rb = "([1, 2, 7], 2)"
       and s_rbf = "two_written\<lparr>writeSemaphore := 2, readSemaphore := 1\<rparr>" and mem_rbf = "([1, 2, 7], 2)"]
  by (simp add: call_defs example_defs)

text \<open>
  Claim C5: \<open>write(collection)\<close>, once admitted, stores
  \<open>n = min(BlockSize, L)\<close> as the element count of the slot at the write
  cursor, copies exactly the first \<open>n\<close> elements of the collection into the
  slot's array (the elements of the array after them stay), advances the write
  cursor and returns \<open>n\<close>; for \<open>L > BlockSize\<close> it returns \<open>BlockSize\<close> and the
  slot holds exactly the first \<open>BlockSize\<close> elements of the collection.
\<close>

theorem write_collection_truncates:
  assumes "0 < writeSemaphore s" and "writeIndex s < length (blocks s)"
  shows "\<exists>s'. write_collection Blocks BlockSize collection s
                 = Some (min BlockSize (length collection), s')
           \<and> size' (blocks s' ! writeIndex s) = min BlockSize (length collection)
           \<and> take (min BlockSize (length collection)) (data (blocks s' ! writeIndex s))
               = take (min BlockSize (length collection)) collection
           \<and> drop (min BlockSize (length collection)) (data (blocks s' ! writeIndex s))
               = drop (min BlockSize (length collection)) (data (blocks s ! writeIndex s))
           \<and> writeIndex s' = (writeIndex s + 1) mod Blocks
           \<and> (BlockSize < length collection \<and> length (data (blocks s ! writeIndex s)) = BlockSize
                \<longrightarrow> size' (blocks s' ! writeIndex s) = BlockSize
                  \<and> data (blocks s' ! writeIndex s) = take BlockSize collection)"
  using assms by (auto simp: write_collection_def acquire_def Let_def min_def)

theorem write_collection_truncates_witness:
  "0 < writeSemaphore (RingBuffer_init 2 [zero_block, zero_block])
   \<and> writeIndex (RingBuffer_init 2 [zero_block, zero_block])
       < length (blocks (RingBuffer_init 2 [zero_block, zero_block]))
   \<and> 3 < length [1, 2, 3, 4, 5 :: int] \<and> length (data zero_block) = 3
   \<and> (\<exists>s'. write_collection 2 3 [1, 2, 3, 4, 5] (RingBuffer_init 2 [zero_block, zero_block])
                = Some (3, s')
          \<and> size' (blocks s' ! 0) = 3 \<and> data (blocks s' ! 0) = [1, 2, 3]
          \<and> writeIndex s' = 1)"
  using write_collection_truncates
    [of "RingBuffer_init 2 [zero_block, zero_block]" 2 3 "[1, 2, 3, 4, 5]"]
  by (simp add: call_defs example_defs)

text \<open>
  Claim C6: on a new buffer, \<open>k \<le> Blocks\<close> calls of \<open>write(block)\<close> followed by
  \<open>k\<close> calls of \<open>read(out_block)\<close> hand back the written blocks in order, each
  with its element count and its elements.

  For \<open>k < Blocks\<close> this is \<open>fifo_below_capacity\<close>, and the block reads that
  return \<open>true\<close> are in the order of the writes in any case
  (\<open>fifo_on_new_buffer\<close>). For \<open>k = Blocks\<close> the code does not hand anything
  back: with two slots and two blocks written both cursors are \<open>0\<close> again, the
  read takes the test that the source comments as \<open>empty buffer\<close>, returns
  \<open>false\<close> and leaves the caller's block as it was.
\<close>

theorem read_on_full_buffer_fails:
  "run 2 3 [Write first_block, Write second_block, Read zero_block]
       (RingBuffer_init 2 [zero_block, zero_block])
   = Some ([RVoid, RVoid, RBlock False zero_block],
           \<lparr>writeSemaphore = 0, readSemaphore = 1, writeIndex = 0, readIndex = 0,
            blocks = [first_block, second_block]\<rparr>)"
  by (simp add: call_defs example_defs)

text \<open>
  Claim C7: \<open>is_empty()\<close> is \<open>true\<close> exactly when the write cursor equals the
  read cursor; so it is \<open>true\<close> on a new buffer, where no slot is filled and
  the counter of \<open>readSemaphore_\<close> is \<open>0\<close>, and \<open>true\<close> again after \<open>Blocks\<close>
  writes of either kind and no read, where every slot is filled and that
  counter is \<open>Blocks\<close>.
\<close>

theorem is_empty_cannot_tell_full_from_empty:
  "is_empty s = (writeIndex s = readIndex s)
   \<and> is_empty (RingBuffer_init Blocks bs)
   \<and> readSemaphore (RingBuffer_init Blocks bs) = 0
   \<and> (length cs = Blocks \<and> (\<forall>c\<in>set cs. is_write c) \<longrightarrow>
        (\<exists>rs s'. run Blocks BlockSize cs (RingBuffer_init Blocks bs) = Some (rs, s')
           \<and> is_empty s' \<and> readSemaphore s' = Blocks))"
proof -
  have "\<exists>rs s'. run Blocks BlockSize cs (RingBuffer_init Blocks bs) = Some (rs, s')
           \<and> is_empty s' \<and> readSemaphore s' = Blocks"
    if len: "length cs = Blocks" and wr: "\<forall>c\<in>set cs. is_write c"
  proof (cases "Blocks = 0")
    case True
    with len show ?thesis by (simp add: is_empty_def RingBuffer_init_def)
  next
    case False
    have "length cs \<le> writeSemaphore (RingBuffer_init Blocks bs)"
      and "writeIndex (RingBuffer_init Blocks bs) < Blocks"
      using len False by (simp_all add: RingBuffer_init_def)
    from run_writes [OF wr this, of BlockSize] len
    show ?thesis by (auto simp: is_empty_def RingBuffer_init_def)
  qed
  then show ?thesis by (simp add: is_empty_def RingBuffer_init_def)
qed

theorem is_empty_cannot_tell_full_from_empty_witness:
  "length [Write first_block, WriteCollection [4, 5]] = 2
   \<and> is_write (Write first_block) \<and> is_write (WriteCollection [4, 5 :: int])
   \<and> is_empty (RingBuffer_init 2 [zero_block, zero_block])
   \<and> (\<exists>rs s'. run 2 3 [Write first_block, WriteCollection [4, 5]]
                  (RingBuffer_init 2 [zero_block, zero_block]) = Some (rs, s')
         \<and> is_empty s' \<and> readSemaphore s' = 2)"
  using is_empty_cannot_tell_full_from_empty
    [of "RingBuffer_init 2 [zero_block, zero_block]" 2 "[zero_block, zero_block]"
        "[Write first_block, WriteCollection [4, 5]]" 3]
  by (simp add: RingBuffer_init_def)

text \<open>
  Claim C8: after \<open>Blocks\<close> writes and no read the counter of
  \<open>writeSemaphore_\<close> is \<open>0\<close> and a further write is not admitted until a
  successful read increments the counter; producers never overwrite a slot
  that still holds unread data.

  The first part is \<open>writes_fill_the_buffer\<close> and
  \<open>writeSemaphore_grows_only_by_read\<close>, and with block reads alone no write
  replaces a pending block (\<open>holds_pending_write\<close>). The second part fails in
  the code: a collection read increments the counter of \<open>writeSemaphore_\<close> and
  leaves the read cursor. Below, with two slots, \<open>[4, 5, 6]\<close> is written to
  slot \<open>1\<close>, no read hands it back, and the write of \<open>[10, 11, 12]\<close> is
  admitted and replaces it.
\<close>

theorem write_overwrites_unread_slot:
  "run 2 3 [WriteCollection [1, 2, 3], ReadCollection [], WriteCollection [4, 5, 6],
            WriteCollection [7, 8, 9], Read zero_block, WriteCollection [10, 11, 12],
            Read zero_block]
       (RingBuffer_init 2 [zero_block, zero_block])
   = Some ([RSize 3, RCollection True [1, 2, 3], RSize 3, RSize 3,
            RBlock True \<lparr>size' = 3, data = [7, 8, 9]\<rparr>, RSize 3,
            RBlock True \<lparr>size' = 3, data = [10, 11, 12]\<rparr>],
           \<lparr>writeSemaphore = 1, readSemaphore = 1, writeIndex = 0, readIndex = 0,
            blocks = [\<lparr>size' = 3, data = [7, 8, 9]\<rparr>, \<lparr>size' = 3, data = [10, 11, 12]\<rparr>]\<rparr>)"
  by (simp add: call_defs example_defs)

text \<open>
  Claim C9: a timed read, \<open>read_for\<close> on a block, \<open>read_for\<close> on a collection or
  \<open>read_bytes_for\<close>, whose timed decrement of the counter of \<open>readSemaphore_\<close>
  expires returns \<open>false\<close> and changes nothing: the buffer, with both cursors,
  every slot and both counters, and the caller's output are as before.
\<close>

theorem timed_read_expiry_mutates_nothing:
  assumes "\<not> fst (try_acquire_for (readSemaphore s) timeout)"
  shows "read_for Blocks s block timeout = Some (False, s, block)
       \<and> read_for_collection s collection timeout = (False, s, collection)
       \<and> read_bytes_for s out timeout = (False, s, out)"
  using assms
  by (simp add: read_for_def readImpl_def read_for_collection_def read_bytes_for_def
      try_acquire_for_def split: if_splits)

theorem timed_read_expiry_mutates_nothing_witness:
  "\<not> fst (try_acquire_for (readSemaphore (RingBuffer_init 2 [zero_block, zero_block])) 1000)
   \<and> read_for 2 (RingBuffer_init 2 [zero_block, zero_block]) first_block 1000
       = Some (False, RingBuffer_init 2 [zero_block, zero_block], first_block)
   \<and> read_for_collection (RingBuffer_init 2 [zero_block, zero_block]) [9] 1000
       = (False, RingBuffer_init 2 [zero_block, zero_block], [9])
   \<and> read_bytes_for (RingBuffer_init 2 [zero_block, zero_block]) ([7, 7, 7], 3) 1000
       = (False, RingBuffer_init 2 [zero_block, zero_block], ([7, 7, 7], 3))"
  using timed_read_expiry_mutates_nothing
    [of "RingBuffer_init 2 [zero_block, zero_block]" 1000 2 first_block "[9]" "([7, 7, 7], 3)"]
  by (simp add: try_acquire_for_def RingBuffer_init_def)

text \<open>
  Claim C10: a successful collection read or byte read leaves the read
  cursor, the write cursor and every slot as they were and increments the
  counter of \<open>writeSemaphore_\<close>; so two such reads in a row see the same slot,
  the one at the read cursor of the first.
\<close>

theorem func_reads_keep_cursors_and_slots:
  "(read_collection s out = Some (True, s_rc, out_rc) \<longrightarrow>
      readIndex s_rc = readIndex s \<and> writeIndex s_rc = writeIndex s \<and> blocks s_rc = blocks s
      \<and> writeSemaphore s_rc = writeSemaphore s + 1
      \<and> out_rc = out @ data (blocks s ! readIndex s))
   \<and> (read_for_collection s out timeout = (True, s_rfc, out_rfc) \<longrightarrow>
      readIndex s_rfc = readIndex s \<and> writeIndex s_rfc = writeIndex s \<and> blocks s_rfc = blocks s
      \<and> writeSemaphore s_rfc = writeSemaphore s + 1
      \<and> out_rfc = out @ data (blocks s ! readIndex s))
   \<and> (read_bytes s (mem, sz) = Some (True, s_rb, mem_rb, sz_rb) \<longrightarrow>
      readIndex s_rb = readIndex s \<and> writeIndex s_rb = writeIndex s \<and> blocks s_rb = blocks s
      \<and> writeSemaphore s_rb = writeSemaphore s + 1
      \<and> sz_rb = min sz (size' (blocks s ! readIndex s))
      \<and> mem_rb = take sz_rb (data (blocks s ! readIndex s)) @ drop sz_rb mem)
   \<and> (read_bytes_for s (mem, sz) timeout = (True, s_rbf, mem_rbf, sz_rbf) \<longrightarrow>
      readIndex s_rbf = readIndex s \<and> writeIndex s_rbf = writeIndex s \<and> blocks s_rbf = blocks s
      \<and> writeSemaphore s_rbf = writeSemaphore s + 1
      \<and> sz_rbf = min sz (size' (blocks s ! readIndex s))
      \<and> mem_rbf = take sz_rbf (data (blocks s ! readIndex s)) @ drop sz_rbf mem)
   \<and> (read_collection s out = Some (True, s_rc, out_rc)
        \<and> read_collection s_rc out' = Some (True, s_next, out_next) \<longrightarrow>
      out_next = out' @ data (blocks s ! readIndex s))
   \<and> (read_bytes s (mem, sz) = Some (True, s_rb, mem_rb, sz_rb)
        \<and> read_bytes s_rb (mem', sz') = Some (True, t_next, mem_next, sz_next) \<longrightarrow>
      sz_next = min sz' (size' (blocks s ! readIndex s))
      \<and> mem_next = take sz_next (data (blocks s ! readIndex s)) @ drop sz_next mem')"
  by (auto simp: read_collection_def read_for_collection_def read_bytes_def read_bytes_for_def
      readImpl_func_def append_block_def reserve_def copy_bytes_def
      acquire_def try_acquire_for_def release_def Let_def
      split: if_splits option.splits prod.splits)

theorem func_reads_keep_cursors_and_slots_witness:
  "read_collection two_written [9]
     = Some (True, two_written\<lparr>writeSemaphore := 2, readSemaphore := 1\<rparr>, [9, 1, 2, 3])
   \<and> read_collection (two_written\<lparr>writeSemaphore := 2, readSemaphore := 1\<rparr>) [9, 1, 2, 3]
     = Some (True, two_written\<lparr>writeSemaphore := 3, readSemaphore := 0\<rparr>, [9, 1, 2, 3, 1, 2, 3])
   \<and> read_for_collection two_written [9] 1000
     = (True, two_written\<lparr>writeSemaphore := 2, readSemaphore := 1\<rparr>, [9, 1, 2, 3])
   \<and> read_bytes two_written ([7, 7, 7], 2)
     = Some (True, two_written\<lparr>writeSemaphore := 2, readSemaphore := 1\<rparr>, [1, 2, 7], 2)
   \<and> read_bytes (two_written\<lparr>writeSemaphore := 2, readSemaphore := 1\<rparr>) ([8, 8, 8], 3)
     = Some (True, two_written\<lparr>writeSemaphore := 3, readSemaphore := 0\<rparr>, [1, 2, 3], 3)
   \<and> read_bytes_for two_written ([7, 7, 7], 2) 1000
     = (True, two_written\<lparr>writeSemaphore := 2, readSemaphore := 1\<rparr>, [1, 2, 7], 2)
   \<and> readIndex (two_written\<lparr>writeSemaphore := 2, readSemaphore := 1\<rparr>) = readIndex two_written
   \<and> blocks (two_written\<lparr>writeSemaphore := 2, readSemaphore := 1\<rparr>) = blocks two_written
   \<and> data (blocks two_written ! readIndex two_written) = [1, 2, 3]"
  using func_reads_keep_cursors_and_slots
    [where s = two_written and out = "[9]" and timeout = 1000
       and s_rc = "two_written\<lparr>writeSemaphore := 2, readSemaphore := 1\<rparr>"
       and out_rc = "[9, 1, 2, 3]"
       and s_rfc = "two_written\<lparr>writeSemaphore := 2, readSemaphore := 1\<rparr>"
       and out_rfc = "[9, 1, 2, 3]"
       and mem = "[7, 7, 7]" and sz = 2
       and s_rb = "two_written\<lparr>writeSemaphore := 2, readSemaphore := 1\<rparr>"
       and mem_rb = "[1, 2, 7]" and sz_rb = 2
       and s_rbf = "two_written\<lparr>writeSemaphore := 2, readSemaphore := 1\<rparr>"
       and mem_rbf = "[1, 2, 7]" and sz_rbf = 2
       and out' = "[9, 1, 2, 3]"
       and s_next = "two_written\<lparr>writeSemaphore := 3, readSemaphore := 0\<rparr>"
       and out_next = "[9, 1, 2, 3, 1, 2, 3]"
       and mem' = "[8, 8, 8]" and sz' = 3
       and t_next = "two_written\<lparr>writeSemaphore := 3, readSemaphore := 0\<rparr>"
       and mem_next = "[1, 2, 3]" and sz_next = 3]
  by (simp add: call_defs example_defs)

end
